theory Spec2Isabelle
  imports Complex_Main
begin

section \<open>Midpoint Riemann sums: sequential, OpenMP and MPI drivers\<close>

text \<open>
  The three C programs approximate a definite integral of \<open>sin\<close> with the midpoint rule.
  The embedding follows the sources function by function:
  \<^item> \<^verbatim>\<open>riemann_suma_secuencial.c\<close>: \<open>calcular_suma_riemann_sec\<close>, \<open>main_secuencial\<close>;
  \<^item> \<^verbatim>\<open>mpi_riemann_suma.c\<close>: \<open>calcular_suma_riemann\<close>, the work split of \<open>main\<close>
    (\<open>subintervalos_por_proceso\<close>, \<open>main_inicio\<close>, \<open>main_fin\<close>), \<open>suma_local\<close>, \<open>suma_total\<close>;
  \<^item> \<^verbatim>\<open>openmp_riemann_suma.c\<close>: \<open>main_openmp\<close>.
\<close>

subsection \<open>Arithmetic on \<open>double\<close>\<close>

text \<open>
  The C type \<open>double\<close>, its operations and \<open>sin\<close> of the maths library are not part of the
  repository.  They are a parameter of every function below: the constants and operations
  that the sources use, collected in a record over a carrier \<open>'d\<close>.  A statement proved
  for all such records holds for the machine's arithmetic, whatever its rounding.
\<close>

record 'd arith =
  fzero :: "'d"                        \<comment> \<open>the literal \<open>0.0\<close>\<close>
  fhalf :: "'d"                        \<comment> \<open>the literal \<open>0.5\<close>\<close>
  of_long :: "int \<Rightarrow> 'd"                \<comment> \<open>conversion of a \<open>long\<close> to \<open>double\<close>\<close>
  fadd :: "'d \<Rightarrow> 'd \<Rightarrow> 'd"
  fsub :: "'d \<Rightarrow> 'd \<Rightarrow> 'd"
  fmul :: "'d \<Rightarrow> 'd \<Rightarrow> 'd"
  fdiv :: "'d \<Rightarrow> 'd \<Rightarrow> 'd"
  fsin :: "'d \<Rightarrow> 'd"                     \<comment> \<open>\<open>sin\<close> of \<^verbatim>\<open>math.h\<close>\<close>

text \<open>\<^verbatim>\<open>double funcion(double x) { return sin(x); }\<close> (the same in the three files).\<close>

definition funcion :: "'d arith \<Rightarrow> 'd \<Rightarrow> 'd" where
  "funcion ops x = fsin ops x"

text \<open>
  Exact arithmetic: the carrier is \<open>real\<close>, no operation rounds.  The integrand is
  any \<open>f\<close> on the reals.
\<close>

definition exact_arith :: "(real \<Rightarrow> real) \<Rightarrow> real arith" where
  "exact_arith f =
     \<lparr>fzero = 0, fhalf = 1 / 2, of_long = real_of_int,
      fadd = (+), fsub = (-), fmul = (*), fdiv = (/), fsin = f\<rparr>"

text \<open>
  A model of \<open>double\<close> with the special values of IEEE 754: a finite number, the two
  infinities, or NaN.  On finite operands the operations are exact (rounding, overflow and
  the sign of zero are left out); on the special values they follow IEEE 754:
  \<open>\<infinity> - \<infinity>\<close>, \<open>0 \<cdot> \<infinity>\<close>, \<open>0 / 0\<close>, \<open>\<infinity> / \<infinity>\<close> and \<open>sin \<infinity>\<close> are NaN, and NaN propagates.
\<close>

datatype double = Finite real | PInf | NInf | NaN

fun dneg :: "double \<Rightarrow> double" where
  "dneg (Finite x) = Finite (- x)"
| "dneg PInf = NInf"
| "dneg NInf = PInf"
| "dneg NaN = NaN"

fun dadd :: "double \<Rightarrow> double \<Rightarrow> double" where
  "dadd NaN _ = NaN"
| "dadd _ NaN = NaN"
| "dadd (Finite x) (Finite y) = Finite (x + y)"
| "dadd (Finite x) PInf = PInf"
| "dadd (Finite x) NInf = NInf"
| "dadd PInf (Finite y) = PInf"
| "dadd NInf (Finite y) = NInf"
| "dadd PInf PInf = PInf"
| "dadd NInf NInf = NInf"
| "dadd PInf NInf = NaN"
| "dadd NInf PInf = NaN"

definition dsub :: "double \<Rightarrow> double \<Rightarrow> double" where
  "dsub x y = dadd x (dneg y)"

text \<open>An infinity with the sign of a nonzero real.\<close>

definition dinf :: "real \<Rightarrow> double" where
  "dinf s = (if 0 < s then PInf else NInf)"

fun dmul :: "double \<Rightarrow> double \<Rightarrow> double" where
  "dmul NaN _ = NaN"
| "dmul _ NaN = NaN"
| "dmul (Finite x) (Finite y) = Finite (x * y)"
| "dmul (Finite x) PInf = (if x = 0 then NaN else dinf x)"
| "dmul (Finite x) NInf = (if x = 0 then NaN else dinf (- x))"
| "dmul PInf (Finite y) = (if y = 0 then NaN else dinf y)"
| "dmul NInf (Finite y) = (if y = 0 then NaN else dinf (- y))"
| "dmul PInf PInf = PInf"
| "dmul NInf NInf = PInf"
| "dmul PInf NInf = NInf"
| "dmul NInf PInf = NInf"

fun ddiv :: "double \<Rightarrow> double \<Rightarrow> double" where
  "ddiv NaN _ = NaN"
| "ddiv _ NaN = NaN"
| "ddiv (Finite x) (Finite y) =
     (if y = 0 then (if x = 0 then NaN else dinf x) else Finite (x / y))"
| "ddiv (Finite x) PInf = Finite 0"
| "ddiv (Finite x) NInf = Finite 0"
| "ddiv PInf (Finite y) = (if 0 \<le> y then PInf else NInf)"
| "ddiv NInf (Finite y) = (if 0 \<le> y then NInf else PInf)"
| "ddiv PInf PInf = NaN"
| "ddiv NInf NInf = NaN"
| "ddiv PInf NInf = NaN"
| "ddiv NInf PInf = NaN"

fun dsin :: "double \<Rightarrow> double" where
  "dsin (Finite x) = Finite (sin x)"
| "dsin PInf = NaN"
| "dsin NInf = NaN"
| "dsin NaN = NaN"

definition ieee_arith :: "double arith" where
  "ieee_arith =
     \<lparr>fzero = Finite 0, fhalf = Finite (1 / 2), of_long = (\<lambda>i. Finite (real_of_int i)),
      fadd = dadd, fsub = dsub, fmul = dmul, fdiv = ddiv, fsin = dsin\<rparr>"

text \<open>
  C's \<open>==\<close> on the model of \<open>double\<close> (NaN is equal to nothing, each infinity to itself),
  and \<open>isfinite\<close>.
\<close>

fun deq :: "double \<Rightarrow> double \<Rightarrow> bool" where
  "deq (Finite x) (Finite y) = (x = y)"
| "deq PInf PInf = True"
| "deq NInf NInf = True"
| "deq _ _ = False"

fun es_finito :: "double \<Rightarrow> bool" where
  "es_finito (Finite x) = True"
| "es_finito _ = False"

subsection \<open>Integers\<close>

text \<open>
  \<open>long\<close> and \<open>int\<close> values are modelled as \<open>int\<close>.  Under the validated inputs
  (\<open>0 < n\<close>, \<open>0 \<le> rank < size\<close>) every integer the sources compute lies between \<open>0\<close> and
  \<open>n\<close> (lemma \<open>rango_acotado\<close>), so no operation overflows.  C's \<open>/\<close> truncates towards
  zero.
\<close>

definition c_div :: "int \<Rightarrow> int \<Rightarrow> int" where
  "c_div x y = (if (x < 0) = (y < 0) then \<bar>x\<bar> div \<bar>y\<bar> else - (\<bar>x\<bar> div \<bar>y\<bar>))"

subsection \<open>\<^verbatim>\<open>riemann_suma_secuencial.c\<close>\<close>

text \<open>
  The loop \<^verbatim>\<open>for (long i = 0; i < n; i++) { x = a + (i + 0.5) * delta_x; suma += funcion(x) * delta_x; }\<close>
  with the loop variable and the accumulator as arguments.
\<close>

function bucle_sec :: "'d arith \<Rightarrow> 'd \<Rightarrow> 'd \<Rightarrow> int \<Rightarrow> int \<Rightarrow> 'd \<Rightarrow> 'd" where
  "bucle_sec ops a delta_x n i suma =
     (if i < n then
        (let x = fadd ops a (fmul ops (fadd ops (of_long ops i) (fhalf ops)) delta_x)
         in bucle_sec ops a delta_x n (i + 1) (fadd ops suma (fmul ops (funcion ops x) delta_x)))
      else suma)"
  by pat_completeness auto
termination
  by (relation "measure (\<lambda>(ops, a, delta_x, n, i, suma). nat (n - i))") auto

definition calcular_suma_riemann_sec :: "'d arith \<Rightarrow> 'd \<Rightarrow> 'd \<Rightarrow> int \<Rightarrow> 'd" where
  "calcular_suma_riemann_sec ops a b n =
     (let delta_x = fdiv ops (fsub ops b a) (of_long ops n)
      in bucle_sec ops a delta_x n 0 (fzero ops))"

subsection \<open>\<^verbatim>\<open>mpi_riemann_suma.c\<close>\<close>

text \<open>The struct \<open>IntegracionParams\<close>; its fields \<open>a\<close>, \<open>b\<close>, \<open>n\<close> carry a prefix here.\<close>

record 'd IntegracionParams =
  params_a :: "'d"
  params_b :: "'d"
  params_n :: int

function bucle_mpi :: "'d arith \<Rightarrow> 'd IntegracionParams \<Rightarrow> 'd \<Rightarrow> int \<Rightarrow> int \<Rightarrow> 'd \<Rightarrow> 'd" where
  "bucle_mpi ops params delta_x fin i suma =
     (if i < fin then
        (let x = fadd ops (params_a params) (fmul ops (fadd ops (of_long ops i) (fhalf ops)) delta_x)
         in bucle_mpi ops params delta_x fin (i + 1) (fadd ops suma (fmul ops (funcion ops x) delta_x)))
      else suma)"
  by pat_completeness auto
termination
  by (relation "measure (\<lambda>(ops, params, delta_x, fin, i, suma). nat (fin - i))") auto

definition calcular_suma_riemann :: "'d arith \<Rightarrow> 'd IntegracionParams \<Rightarrow> int \<Rightarrow> int \<Rightarrow> 'd" where
  "calcular_suma_riemann ops params inicio fin =
     (let delta_x = fdiv ops (fsub ops (params_b params) (params_a params)) (of_long ops (params_n params))
      in bucle_mpi ops params delta_x fin inicio (fzero ops))"

text \<open>
  The work split of \<open>main\<close>, lines 98 to 100, for the process \<open>rank\<close> of \<open>size\<close> processes (\<open>nproc\<close> below,
  as \<open>size\<close> is a constant of HOL).  The locals \<open>inicio\<close> and \<open>fin\<close> of \<open>main\<close> are
  \<open>main_inicio\<close> and \<open>main_fin\<close>:
  \<^verbatim>\<open>long subintervalos_por_proceso = params.n / size;\<close>
  \<^verbatim>\<open>long inicio = rank * subintervalos_por_proceso;\<close>
  \<^verbatim>\<open>long fin = (rank == size - 1) ? params.n : inicio + subintervalos_por_proceso;\<close>
\<close>

definition subintervalos_por_proceso :: "int \<Rightarrow> int \<Rightarrow> int" where
  "subintervalos_por_proceso n nproc = c_div n nproc"

definition main_inicio :: "int \<Rightarrow> int \<Rightarrow> int \<Rightarrow> int" where
  "main_inicio n nproc rank = rank * subintervalos_por_proceso n nproc"

definition main_fin :: "int \<Rightarrow> int \<Rightarrow> int \<Rightarrow> int" where
  "main_fin n nproc rank =
     (if rank = nproc - 1 then n else main_inicio n nproc rank + subintervalos_por_proceso n nproc)"

text \<open>Line 107, in the process \<open>rank\<close>.\<close>

definition suma_local :: "'d arith \<Rightarrow> 'd IntegracionParams \<Rightarrow> int \<Rightarrow> int \<Rightarrow> 'd" where
  "suma_local ops params nproc rank =
     calcular_suma_riemann ops params
       (main_inicio (params_n params) nproc rank) (main_fin (params_n params) nproc rank)"

text \<open>
  \<open>MPI_Reduce\<close> with \<open>MPI_SUM\<close> (line 110) belongs to the MPI library.  It is taken in its
  canonical evaluation order: the contributions are added in rank order, starting from the
  contribution of rank 0; with one process the result is that process's value.  A
  communicator has at least one process, so the empty list does not occur.
\<close>

fun reduce_sum :: "'d arith \<Rightarrow> 'd list \<Rightarrow> 'd" where
  "reduce_sum ops [] = fzero ops"
| "reduce_sum ops (p # ps) = foldl (fadd ops) p ps"

definition suma_total :: "'d arith \<Rightarrow> 'd IntegracionParams \<Rightarrow> int \<Rightarrow> 'd" where
  "suma_total ops params nproc = reduce_sum ops (map (suma_local ops params nproc) [0..nproc - 1])"

subsection \<open>Runs of the sequential and OpenMP programs\<close>

text \<open>
  The run of a program is a list of events in program order and an exit status.  A line
  written to standard error is a \<open>mensaje\<close>, a line written to standard output a
  \<open>reporte\<close> (\<open>printf\<close> formats the numbers; the lines keep the values), and every call of
  the integration function is an event of its own, with its arguments.
\<close>

datatype mensaje =
    Uso_abn string          \<comment> \<open>\<^verbatim>\<open>Uso: %s <a> <b> <n>\<close> with \<open>argv[0]\<close>\<close>
  | Uso_abn_hilos string    \<comment> \<open>\<^verbatim>\<open>Uso: %s <a> <b> <n> <numero_de_hilos>\<close> with \<open>argv[0]\<close>\<close>
  | Donde
  | Ayuda_a
  | Ayuda_b
  | Ayuda_n
  | Ayuda_hilos
  | Error_n                 \<comment> \<open>the number of subintervals must be a positive integer\<close>
  | Error_n_hilos           \<comment> \<open>the numbers of subintervals and of threads must be positive\<close>

datatype 'd reporte =
    Aproximando 'd 'd int
  | Aproximando_hilos 'd 'd int int
  | Resultado 'd            \<comment> \<open>\<^verbatim>\<open>Resultado de la integral aproximada: %.12f\<close>\<close>
  | Tiempo 'd

datatype 'd evento =
    Stderr mensaje
  | Stdout "'d reporte"
  | Calculo 'd 'd int               \<comment> \<open>call of \<open>calcular_suma_riemann(a, b, n)\<close>\<close>
  | Calculo_openmp 'd 'd int int    \<comment> \<open>call of \<open>calcular_suma_riemann_openmp(a, b, n, num_hilos)\<close>\<close>

record 'd ejecucion =
  eventos :: "'d evento list"
  estado :: int

fun es_stderr :: "'d evento \<Rightarrow> bool" where
  "es_stderr (Stderr m) = True"
| "es_stderr _ = False"

fun es_stdout :: "'d evento \<Rightarrow> bool" where
  "es_stdout (Stdout l) = True"
| "es_stdout _ = False"

fun es_resultado :: "'d evento \<Rightarrow> bool" where
  "es_resultado (Stdout (Resultado v)) = True"
| "es_resultado _ = False"

fun es_calculo :: "'d evento \<Rightarrow> bool" where
  "es_calculo (Calculo a b n) = True"
| "es_calculo (Calculo_openmp a b n h) = True"
| "es_calculo _ = False"

text \<open>\<^verbatim>\<open>stdlib.h\<close>: the exit statuses of the C library.\<close>

definition EXIT_SUCCESS :: int where
  "EXIT_SUCCESS = 0"

definition EXIT_FAILURE :: int where
  "EXIT_FAILURE = 1"

text \<open>
  What the programs take from outside: the parsers \<open>atof\<close>, \<open>atol\<close>, \<open>atoi\<close> of the C
  library, the elapsed time the clock gives, and the value that the OpenMP runtime's
  reduction of the loop of \<open>calcular_suma_riemann_openmp\<close> returns (the order in which the
  threads' partial sums are combined is the runtime's).
\<close>

record 'd entorno =
  atof :: "string \<Rightarrow> 'd"
  atol :: "string \<Rightarrow> int"
  atoi :: "string \<Rightarrow> int"
  tiempo :: "'d"
  suma_openmp :: "'d \<Rightarrow> 'd \<Rightarrow> int \<Rightarrow> int \<Rightarrow> 'd"

text \<open>
  \<open>main\<close> of \<^verbatim>\<open>riemann_suma_secuencial.c\<close>, lines 50 to 84.  The command line is
  \<open>argv[0]\<close> and the list of the arguments after it, so \<open>argc = 1 + length args\<close>.
\<close>

definition main_secuencial :: "'d arith \<Rightarrow> 'd entorno \<Rightarrow> string \<Rightarrow> string list \<Rightarrow> 'd ejecucion" where
  "main_secuencial ops env argv0 args =
     (if 1 + length args \<noteq> 4 then
        \<lparr>eventos = [Stderr (Uso_abn argv0), Stderr Donde, Stderr Ayuda_a, Stderr Ayuda_b,
                    Stderr Ayuda_n],
         estado = EXIT_FAILURE\<rparr>
      else
        (let a = atof env (args ! 0); b = atof env (args ! 1); n = atol env (args ! 2)
         in if n \<le> 0 then \<lparr>eventos = [Stderr Error_n], estado = EXIT_FAILURE\<rparr>
            else
              (let suma = calcular_suma_riemann_sec ops a b n
               in \<lparr>eventos = [Stdout (Aproximando a b n), Calculo a b n,
                               Stdout (Resultado suma), Stdout (Tiempo (tiempo env))],
                   estado = EXIT_SUCCESS\<rparr>)))"

text \<open>
  \<open>main\<close> of \<^verbatim>\<open>openmp_riemann_suma.c\<close>, lines 51 to 87.  The program name and four
  arguments are expected; the fourth is the number of threads.
\<close>

definition main_openmp :: "'d entorno \<Rightarrow> string \<Rightarrow> string list \<Rightarrow> 'd ejecucion" where
  "main_openmp env argv0 args =
     (if 1 + length args \<noteq> 5 then
        \<lparr>eventos = [Stderr (Uso_abn_hilos argv0), Stderr Donde, Stderr Ayuda_a, Stderr Ayuda_b,
                    Stderr Ayuda_n, Stderr Ayuda_hilos],
         estado = EXIT_FAILURE\<rparr>
      else
        (let a = atof env (args ! 0); b = atof env (args ! 1); n = atol env (args ! 2);
             num_hilos = atoi env (args ! 3)
         in if n \<le> 0 \<or> num_hilos \<le> 0 then
              \<lparr>eventos = [Stderr Error_n_hilos], estado = EXIT_FAILURE\<rparr>
            else
              (let suma = suma_openmp env a b n num_hilos
               in \<lparr>eventos = [Stdout (Aproximando_hilos a b n num_hilos),
                               Calculo_openmp a b n num_hilos,
                               Stdout (Resultado suma), Stdout (Tiempo (tiempo env))],
                   estado = EXIT_SUCCESS\<rparr>)))"

subsection \<open>The specification's RangeSum\<close>

text \<open>
  The sum as the specification words it: \<open>delta_x = (b - a) / n\<close> is computed once; one
  accumulator starts at \<open>0.0\<close>; the terms \<open>f(a + (i + 0.5) * delta_x) * delta_x\<close> are added
  to it for \<open>i = start, start + 1, ..., stop - 1\<close>, in this order.
\<close>

definition termino :: "'d arith \<Rightarrow> 'd \<Rightarrow> 'd \<Rightarrow> int \<Rightarrow> 'd" where
  "termino ops a delta_x i =
     fmul ops (funcion ops (fadd ops a (fmul ops (fadd ops (of_long ops i) (fhalf ops)) delta_x)))
       delta_x"

definition RangeSum :: "'d arith \<Rightarrow> 'd \<Rightarrow> 'd \<Rightarrow> int \<Rightarrow> int \<Rightarrow> int \<Rightarrow> 'd" where
  "RangeSum ops a b n start stop =
     (let delta_x = fdiv ops (fsub ops b a) (of_long ops n)
      in foldl (\<lambda>acc i. fadd ops acc (termino ops a delta_x i)) (fzero ops) [start..stop - 1])"

text \<open>The terms of a range, as a list in ascending index order.\<close>

definition terminos :: "'d arith \<Rightarrow> 'd IntegracionParams \<Rightarrow> int \<Rightarrow> int \<Rightarrow> 'd list" where
  "terminos ops params start stop =
     (let delta_x = fdiv ops (fsub ops (params_b params) (params_a params))
                      (of_long ops (params_n params))
      in map (termino ops (params_a params) delta_x) [start..stop - 1])"

section \<open>Integer facts about the work split\<close>

lemma c_div_nonneg: "0 \<le> x \<Longrightarrow> 0 < y \<Longrightarrow> c_div x y = x div y"
  by (simp add: c_div_def)

lemma base_eq: "0 < n \<Longrightarrow> 1 \<le> w \<Longrightarrow> subintervalos_por_proceso n w = n div w"
  by (simp add: subintervalos_por_proceso_def c_div_nonneg)

lemma base_nonneg: "0 < n \<Longrightarrow> 1 \<le> w \<Longrightarrow> 0 \<le> subintervalos_por_proceso n w"
  by (simp add: base_eq pos_imp_zdiv_nonneg_iff)

lemma w_base_le:
  assumes "0 < n" "1 \<le> (w::int)"
  shows "w * (n div w) \<le> n"
proof -
  have "w * (n div w) + n mod w = n" by simp
  moreover have "0 \<le> n mod w" using assms by simp
  ultimately show ?thesis by linarith
qed

lemma k_base_le:
  assumes "0 < n" "1 \<le> w" "k \<le> w"
  shows "k * subintervalos_por_proceso n w \<le> n"
proof -
  have "k * (n div w) \<le> w * (n div w)"
    using assms by (intro mult_right_mono) (simp_all add: pos_imp_zdiv_nonneg_iff)
  also have "\<dots> \<le> n" using assms by (simp add: w_base_le)
  finally show ?thesis using assms by (simp add: base_eq)
qed

text \<open>
  Every bound of a range lies between \<open>0\<close> and \<open>n\<close>: with \<open>n\<close> a \<open>long\<close>, neither the
  product \<open>rank * subintervalos_por_proceso\<close> nor the sum \<open>inicio + subintervalos_por_proceso\<close>
  leaves the range of \<open>long\<close>.
\<close>

lemma rango_acotado:
  assumes "0 < n" "1 \<le> w" "0 \<le> r" "r < w"
  shows "0 \<le> main_inicio n w r \<and> main_inicio n w r \<le> main_fin n w r \<and> main_fin n w r \<le> n"
proof -
  let ?b = "subintervalos_por_proceso n w"
  have b: "0 \<le> ?b" using assms by (simp add: base_nonneg)
  have i0: "0 \<le> r * ?b" using assms b by simp
  have i1: "r * ?b \<le> n" using assms by (simp add: k_base_le)
  have i2: "r \<noteq> w - 1 \<Longrightarrow> r * ?b + ?b \<le> n"
    using k_base_le[of n w "r + 1"] assms by (simp add: algebra_simps)
  show ?thesis using i0 i1 i2 b by (auto simp: main_inicio_def main_fin_def)
qed

lemma rangos_ordenados:
  assumes "0 < n" "1 \<le> w" "0 \<le> r" "r < r'" "r' < w"
  shows "main_fin n w r \<le> main_inicio n w r'"
proof -
  let ?b = "subintervalos_por_proceso n w"
  have b: "0 \<le> ?b" using assms by (simp add: base_nonneg)
  have "(r + 1) * ?b \<le> r' * ?b" using assms b by (intro mult_right_mono) simp_all
  then show ?thesis using assms by (simp add: main_inicio_def main_fin_def algebra_simps)
qed

section \<open>The loops as folds\<close>

lemma bucle_mpi_foldl:
  "bucle_mpi ops params delta_x fin i suma =
     foldl (\<lambda>acc k. fadd ops acc (termino ops (params_a params) delta_x k)) suma [i..fin - 1]"
proof (induction ops params delta_x fin i suma rule: bucle_mpi.induct)
  case (1 ops params delta_x fin i suma)
  show ?case
  proof (cases "i < fin")
    case True
    then have "[i..fin - 1] = i # [i + 1..fin - 1]"
      by (simp add: upto_rec1)
    with True "1.IH" show ?thesis
      by (subst bucle_mpi.simps) (simp add: termino_def Let_def)
  next
    case False
    then show ?thesis
      by (subst bucle_mpi.simps) simp
  qed
qed

lemma bucle_sec_mpi:
  "bucle_sec ops (params_a params) delta_x n i suma = bucle_mpi ops params delta_x n i suma"
proof (induction ops params delta_x n i suma rule: bucle_mpi.induct)
  case (1 ops params delta_x fin i suma)
  show ?case
  proof (cases "i < fin")
    case True
    with "1.IH" show ?thesis
      by (subst bucle_sec.simps, subst bucle_mpi.simps) (simp add: Let_def)
  next
    case False
    then show ?thesis
      by (subst bucle_sec.simps, subst bucle_mpi.simps) simp
  qed
qed

lemma upto_append:
  assumes "s \<le> m" "m \<le> e"
  shows "[s..m - 1] @ [m..e - 1] = [s..e - 1]"
proof (cases "m = e")
  case True
  then show ?thesis by simp
next
  case False
  with assms have "s \<le> m" "m \<le> e - 1" by simp_all
  then show ?thesis by (simp add: upto_split1)
qed

lemma bloques_concat:
  assumes "0 \<le> b" "0 \<le> m"
  shows "concat (map (\<lambda>r. [r * b..r * b + b - 1]) [0..m - 1]) = [0..m * b - 1]"
  using assms(2)
proof (induction m rule: int_ge_induct)
  case base
  then show ?case by simp
next
  case (step k)
  have "[0..k + 1 - 1] = [0..k - 1] @ [k]"
    using step.hyps by (simp add: upto_rec2)
  moreover have "[0..k * b - 1] @ [k * b..(k * b + b) - 1] = [0..(k * b + b) - 1]"
    using step.hyps assms(1) by (intro upto_append) simp_all
  ultimately show ?case
    using step.IH by (simp add: algebra_simps)
qed

lemma calcular_suma_riemann_foldl:
  "calcular_suma_riemann ops params start stop =
     RangeSum ops (params_a params) (params_b params) (params_n params) start stop"
  unfolding calcular_suma_riemann_def RangeSum_def Let_def
  by (rule bucle_mpi_foldl)

lemma foldl_terminos:
  "foldl (\<lambda>acc k. fadd ops acc (termino ops a delta_x k)) s xs =
     foldl (fadd ops) s (map (termino ops a delta_x) xs)"
  by (induction xs arbitrary: s) simp_all

lemma calcular_suma_riemann_terminos:
  "calcular_suma_riemann ops params start stop =
     foldl (fadd ops) (fzero ops) (terminos ops params start stop)"
  unfolding calcular_suma_riemann_def terminos_def Let_def bucle_mpi_foldl
  by (rule foldl_terminos)

lemma sec_eq_mpi:
  "calcular_suma_riemann_sec ops a b n =
     calcular_suma_riemann ops \<lparr>params_a = a, params_b = b, params_n = n\<rparr> 0 n"
  using bucle_sec_mpi [of ops "\<lparr>params_a = a, params_b = b, params_n = n\<rparr>"]
  by (simp add: calcular_suma_riemann_sec_def calcular_suma_riemann_def Let_def)

lemma terminos_append:
  assumes "s \<le> m" "m \<le> e"
  shows "terminos ops params s m @ terminos ops params m e = terminos ops params s e"
proof -
  have "[s..e - 1] = [s..m - 1] @ [m..e - 1]"
    using assms by (simp add: upto_append)
  then show ?thesis by (simp add: terminos_def Let_def)
qed

lemma indices_concat:
  assumes "0 < n" "1 \<le> w"
  shows "concat (map (\<lambda>r. [main_inicio n w r..main_fin n w r - 1]) [0..w - 1]) = [0..n - 1]"
proof -
  let ?b = "subintervalos_por_proceso n w"
  let ?g = "\<lambda>r. [main_inicio n w r..main_fin n w r - 1]"
  have b: "0 \<le> ?b" using assms by (simp add: base_nonneg)
  have split: "[0..w - 1] = [0..w - 1 - 1] @ [w - 1]"
    using assms by (intro upto_rec2) simp
  have low: "map ?g [0..w - 1 - 1] = map (\<lambda>r. [r * ?b..r * ?b + ?b - 1]) [0..w - 1 - 1]"
    by (rule map_cong) (auto simp: main_inicio_def main_fin_def)
  have top: "?g (w - 1) = [(w - 1) * ?b..n - 1]"
    by (simp add: main_inicio_def main_fin_def)
  have blocks: "concat (map (\<lambda>r. [r * ?b..r * ?b + ?b - 1]) [0..w - 1 - 1]) = [0..(w - 1) * ?b - 1]"
    using b assms by (intro bloques_concat) simp_all
  have whole: "[0..(w - 1) * ?b - 1] @ [(w - 1) * ?b..n - 1] = [0..n - 1]"
    using b assms k_base_le[of n w "w - 1"] by (intro upto_append) simp_all
  have "concat (map ?g [0..w - 1]) = concat (map ?g [0..w - 1 - 1]) @ ?g (w - 1)"
    by (subst split) simp
  also have "\<dots> = [0..(w - 1) * ?b - 1] @ [(w - 1) * ?b..n - 1]"
    by (simp only: low top blocks)
  also have "\<dots> = [0..n - 1]"
    by (rule whole)
  finally show ?thesis .
qed

lemma terminos_concat:
  assumes "0 < params_n params" "1 \<le> w"
  shows "concat (map (\<lambda>r. terminos ops params (main_inicio (params_n params) w r)
                             (main_fin (params_n params) w r)) [0..w - 1])
           = terminos ops params 0 (params_n params)"
proof -
  let ?n = "params_n params"
  let ?t = "termino ops (params_a params)
              (fdiv ops (fsub ops (params_b params) (params_a params)) (of_long ops ?n))"
  have "concat (map (\<lambda>r. terminos ops params (main_inicio ?n w r) (main_fin ?n w r)) [0..w - 1])
          = map ?t (concat (map (\<lambda>r. [main_inicio ?n w r..main_fin ?n w r - 1]) [0..w - 1]))"
    by (simp add: terminos_def Let_def map_concat comp_def)
  also have "\<dots> = map ?t [0..?n - 1]"
    using assms by (simp add: indices_concat)
  finally show ?thesis by (simp add: terminos_def Let_def)
qed

subsection \<open>Exact arithmetic\<close>

lemma sum_list_concat_map:
  "sum_list (concat (map g rs)) = sum_list (map (\<lambda>r. sum_list (g r)) rs)"
  for g :: "'a \<Rightarrow> real list"
  by (induction rs) simp_all

lemma foldl_exact: "foldl (fadd (exact_arith f)) s xs = s + sum_list xs"
  by (induction xs arbitrary: s) (simp_all add: exact_arith_def)

lemma calcular_exact:
  "calcular_suma_riemann (exact_arith f) params s e = sum_list (terminos (exact_arith f) params s e)"
  by (simp add: calcular_suma_riemann_terminos foldl_exact) (simp add: exact_arith_def)

lemma reduce_sum_exact: "reduce_sum (exact_arith f) ps = sum_list ps"
  by (cases ps) (simp_all add: foldl_exact, simp add: exact_arith_def)

lemma suma_total_exact:
  assumes "0 < params_n params" "1 \<le> w"
  shows "suma_total (exact_arith f) params w
           = calcular_suma_riemann (exact_arith f) params 0 (params_n params)"
proof -
  let ?n = "params_n params"
  have "suma_total (exact_arith f) params w
          = sum_list (map (\<lambda>r. sum_list (terminos (exact_arith f) params (main_inicio ?n w r)
                                             (main_fin ?n w r))) [0..w - 1])"
  proof -
    have "suma_local (exact_arith f) params w
            = (\<lambda>r. sum_list (terminos (exact_arith f) params (main_inicio ?n w r) (main_fin ?n w r)))"
      by (rule ext) (simp add: suma_local_def calcular_exact)
    then show ?thesis by (simp add: suma_total_def reduce_sum_exact)
  qed
  also have "\<dots> = sum_list (concat (map (\<lambda>r. terminos (exact_arith f) params (main_inicio ?n w r)
                                             (main_fin ?n w r)) [0..w - 1]))"
    by (simp add: sum_list_concat_map)
  also have "\<dots> = sum_list (terminos (exact_arith f) params 0 ?n)"
    using assms by (simp add: terminos_concat)
  finally show ?thesis by (simp add: calcular_exact)
qed

lemma suma_total_uno:
  assumes "0 < params_n params"
  shows "suma_total ops params 1 = calcular_suma_riemann ops params 0 (params_n params)"
proof -
  have "[0..1 - 1] = [0::int]" by (simp add: upto.simps)
  then show ?thesis
    by (simp add: suma_total_def suma_local_def main_inicio_def main_fin_def)
qed

subsection \<open>The reduction\<close>

lemma suma_total_foldl:
  assumes "1 \<le> w"
  shows "suma_total ops params w =
           foldl (fadd ops) (suma_local ops params w 0) (map (suma_local ops params w) [1..w - 1])"
proof -
  have "[0..w - 1] = 0 # [0 + 1..w - 1]"
    using assms by (intro upto_rec1) simp
  then show ?thesis by (simp add: suma_total_def)
qed

lemma foldl_desde_cero:
  assumes assoc: "\<forall>u v t. fadd ops (fadd ops u v) t = fadd ops u (fadd ops v t)"
    and izq: "\<forall>u. fadd ops (fzero ops) u = u"
    and der: "\<forall>u. fadd ops u (fzero ops) = u"
  shows "foldl (fadd ops) s xs = fadd ops s (foldl (fadd ops) (fzero ops) xs)"
proof (induction xs arbitrary: s)
  case Nil
  show ?case using der by simp
next
  case (Cons y ys)
  have "foldl (fadd ops) s (y # ys) = fadd ops (fadd ops s y) (foldl (fadd ops) (fzero ops) ys)"
    using Cons.IH [of "fadd ops s y"] by simp
  also have "\<dots> = fadd ops s (fadd ops y (foldl (fadd ops) (fzero ops) ys))"
    using assoc by simp
  also have "fadd ops y (foldl (fadd ops) (fzero ops) ys) = foldl (fadd ops) (fzero ops) (y # ys)"
    using Cons.IH [of y] izq by simp
  finally show ?case .
qed

lemma foldl_concat_grupos:
  assumes assoc: "\<forall>u v t. fadd ops (fadd ops u v) t = fadd ops u (fadd ops v t)"
    and izq: "\<forall>u. fadd ops (fzero ops) u = u"
    and der: "\<forall>u. fadd ops u (fzero ops) = u"
  shows "foldl (fadd ops) s (concat (map g rs)) =
           foldl (fadd ops) s (map (\<lambda>r. foldl (fadd ops) (fzero ops) (g r)) rs)"
proof (induction rs arbitrary: s)
  case Nil
  show ?case by simp
next
  case (Cons r rs)
  have "foldl (fadd ops) s (g r) = fadd ops s (foldl (fadd ops) (fzero ops) (g r))"
    using assoc izq der by (rule foldl_desde_cero)
  then show ?case using Cons.IH by simp
qed

lemma reduce_sum_desde_cero:
  assumes izq: "\<forall>u. fadd ops (fzero ops) u = u"
  shows "reduce_sum ops ps = foldl (fadd ops) (fzero ops) ps"
  using izq by (cases ps) simp_all

lemma suma_total_asociativa:
  assumes "0 < params_n params" "1 \<le> w"
    and assoc: "\<forall>u v t. fadd ops (fadd ops u v) t = fadd ops u (fadd ops v t)"
    and izq: "\<forall>u. fadd ops (fzero ops) u = u"
    and der: "\<forall>u. fadd ops u (fzero ops) = u"
  shows "suma_total ops params w = calcular_suma_riemann ops params 0 (params_n params)"
proof -
  let ?n = "params_n params"
  let ?g = "\<lambda>r. terminos ops params (main_inicio ?n w r) (main_fin ?n w r)"
  have loc: "suma_local ops params w = (\<lambda>r. foldl (fadd ops) (fzero ops) (?g r))"
    by (rule ext) (simp add: suma_local_def calcular_suma_riemann_terminos)
  have "suma_total ops params w
          = foldl (fadd ops) (fzero ops) (map (\<lambda>r. foldl (fadd ops) (fzero ops) (?g r)) [0..w - 1])"
    unfolding suma_total_def loc using izq by (rule reduce_sum_desde_cero)
  also have "\<dots> = foldl (fadd ops) (fzero ops) (concat (map ?g [0..w - 1]))"
    using assoc izq der by (rule foldl_concat_grupos [symmetric])
  also have "concat (map ?g [0..w - 1]) = terminos ops params 0 ?n"
    using assms(1,2) by (rule terminos_concat)
  finally show ?thesis by (simp add: calcular_suma_riemann_terminos)
qed

subsection \<open>An interval of width zero\<close>

lemma termino_ancho_cero: "termino ieee_arith (Finite x) (Finite 0) i = Finite 0"
  by (simp add: termino_def funcion_def ieee_arith_def)

lemma foldl_ancho_cero:
  "foldl (\<lambda>acc k. fadd ieee_arith acc (termino ieee_arith (Finite x) (Finite 0) k)) (Finite 0) xs
     = Finite 0"
  by (induction xs) (simp_all add: termino_ancho_cero, simp add: ieee_arith_def)

lemma delta_x_cero:
  "0 < n \<Longrightarrow> fdiv ieee_arith (fsub ieee_arith (Finite x) (Finite x)) (of_long ieee_arith n) = Finite 0"
  by (simp add: ieee_arith_def dsub_def)

lemma rango_ancho_cero:
  assumes "0 < n"
  shows "calcular_suma_riemann ieee_arith \<lparr>params_a = Finite x, params_b = Finite x, params_n = n\<rparr> s e
           = Finite 0"
proof -
  have "RangeSum ieee_arith (Finite x) (Finite x) n s e = Finite 0"
    unfolding RangeSum_def Let_def delta_x_cero [OF assms]
    using foldl_ancho_cero [of x "[s..e - 1]"] by (simp add: ieee_arith_def)
  then show ?thesis by (simp add: calcular_suma_riemann_foldl)
qed

lemma reduce_sum_ceros:
  assumes "\<forall>p \<in> set ps. p = Finite 0"
  shows "reduce_sum ieee_arith ps = Finite 0"
proof -
  have "foldl dadd (Finite 0) qs = Finite 0" if "\<forall>q \<in> set qs. q = Finite 0" for qs
    using that by (induction qs) simp_all
  then show ?thesis using assms
    by (cases ps) (simp_all add: ieee_arith_def)
qed

section \<open>The work split\<close>

text \<open>
  Claim C2.  For \<open>n > 0\<close> subintervals and \<open>w \<ge> 1\<close> processes, the ranges
  \<open>[main_inicio, main_fin)\<close> of the ranks \<open>0, ..., w - 1\<close> are a partition of \<open>[0, n)\<close>:
  every index of \<open>[0, n)\<close> lies in the range of exactly one rank; every range lies inside
  \<open>[0, n]\<close>, so no index outside \<open>[0, n)\<close> is covered; and the range of a lower rank ends
  where or before the range of a higher rank starts, so no two ranges overlap.
\<close>

theorem particion_completa:
  assumes "0 < n" "1 \<le> w"
  shows "(\<forall>i. 0 \<le> i \<and> i < n \<longrightarrow>
            (\<exists>!r. 0 \<le> r \<and> r < w \<and> main_inicio n w r \<le> i \<and> i < main_fin n w r))
       \<and> (\<forall>r. 0 \<le> r \<and> r < w \<longrightarrow>
            0 \<le> main_inicio n w r \<and> main_inicio n w r \<le> main_fin n w r \<and> main_fin n w r \<le> n)
       \<and> (\<forall>r r'. 0 \<le> r \<and> r < r' \<and> r' < w \<longrightarrow> main_fin n w r \<le> main_inicio n w r')"
proof (intro conjI allI impI)
  fix i assume i: "0 \<le> i \<and> i < n"
  let ?b = "subintervalos_por_proceso n w"
  let ?P = "\<lambda>r. 0 \<le> r \<and> r < w \<and> main_inicio n w r \<le> i \<and> i < main_fin n w r"
  have b: "0 \<le> ?b" using assms by (simp add: base_nonneg)
  have ex: "\<exists>r. ?P r"
  proof (cases "i < (w - 1) * ?b")
    case True
    have bpos: "0 < ?b"
    proof (rule ccontr)
      assume "\<not> 0 < ?b"
      with b have "?b = 0" by simp
      with True i show False by simp
    qed
    let ?r = "i div ?b"
    have r0: "0 \<le> ?r" using i bpos by (simp add: pos_imp_zdiv_nonneg_iff)
    have lo: "?r * ?b \<le> i"
    proof -
      have "?r * ?b + i mod ?b = i" by (rule div_mult_mod_eq)
      moreover have "0 \<le> i mod ?b" using bpos by simp
      ultimately show ?thesis by linarith
    qed
    have hi: "i < ?r * ?b + ?b"
    proof -
      have "?r * ?b + i mod ?b = i" by (rule div_mult_mod_eq)
      moreover have "i mod ?b < ?b" using bpos by simp
      ultimately show ?thesis by linarith
    qed
    have "?r * ?b < (w - 1) * ?b" using lo True by linarith
    then have rw: "?r < w - 1" using bpos by (simp add: mult_less_cancel_right)
    have "?P ?r" using r0 rw lo hi by (simp add: main_inicio_def main_fin_def)
    then show ?thesis by blast
  next
    case False
    then have "?P (w - 1)" using assms i by (simp add: main_inicio_def main_fin_def)
    then show ?thesis by blast
  qed
  have uniq: "r = r'" if "?P r" "?P r'" for r r'
  proof (rule ccontr)
    assume "r \<noteq> r'"
    then consider "r < r'" | "r' < r" by linarith
    then show False
    proof cases
      case 1
      then have "main_fin n w r \<le> main_inicio n w r'"
        using that assms by (intro rangos_ordenados) simp_all
      with that show False by linarith
    next
      case 2
      then have "main_fin n w r' \<le> main_inicio n w r"
        using that assms by (intro rangos_ordenados) simp_all
      with that show False by linarith
    qed
  qed
  from ex uniq show "\<exists>!r. ?P r" by blast
next
  fix r assume "0 \<le> r \<and> r < w"
  then show "0 \<le> main_inicio n w r" "main_inicio n w r \<le> main_fin n w r" "main_fin n w r \<le> n"
    using rango_acotado[of n w r] assms by simp_all
next
  fix r r' assume "0 \<le> r \<and> r < r' \<and> r' < w"
  then show "main_fin n w r \<le> main_inicio n w r'"
    using assms by (intro rangos_ordenados) simp_all
qed

theorem particion_completa_witness:
  "(0::int) < 7 \<and> (1::int) \<le> 3
   \<and> (\<exists>!r. 0 \<le> r \<and> r < 3 \<and> main_inicio 7 3 r \<le> 6 \<and> 6 < main_fin 7 3 r)
   \<and> main_inicio 7 3 2 = 4 \<and> main_fin 7 3 2 = 7 \<and> main_fin 7 3 1 \<le> main_inicio 7 3 2"
proof -
  have h: "(0::int) < 7" "(1::int) \<le> 3" by simp_all
  have "\<exists>!r. 0 \<le> r \<and> r < 3 \<and> main_inicio 7 3 r \<le> 6 \<and> 6 < main_fin 7 3 r"
    using particion_completa [OF h] by simp
  moreover have "main_inicio 7 3 2 = 4" "main_fin 7 3 2 = 7" "main_fin 7 3 1 \<le> main_inicio 7 3 2"
    by (simp_all add: main_inicio_def main_fin_def subintervalos_por_proceso_def c_div_def)
  ultimately show ?thesis by simp
qed

text \<open>
  Claim C3.  For \<open>n > 0\<close> and \<open>w \<ge> 1\<close>, the base size is \<open>n / w\<close> (C's truncating
  division, which is \<open>div\<close> on these operands); every rank starts at \<open>rank * base\<close>; a rank
  below \<open>w - 1\<close> receives exactly \<open>base\<close> indices; the last rank, \<open>w - 1\<close>, runs from
  \<open>(w - 1) * base\<close> to \<open>n\<close> and so receives \<open>base + n mod w\<close> indices: it absorbs the
  remainder.
\<close>

theorem politica_de_reparto:
  assumes "0 < n" "1 \<le> w" "0 \<le> rank" "rank < w"
  shows "subintervalos_por_proceso n w = n div w
       \<and> main_inicio n w rank = rank * (n div w)
       \<and> (rank < w - 1 \<longrightarrow> main_fin n w rank - main_inicio n w rank = n div w)
       \<and> (rank = w - 1 \<longrightarrow> main_fin n w rank = n
            \<and> main_fin n w rank - main_inicio n w rank = n div w + n mod w)"
proof -
  have b: "subintervalos_por_proceso n w = n div w" using assms by (simp add: base_eq)
  have "n - (w - 1) * (n div w) = n div w + n mod w"
  proof -
    have "w * (n div w) + n mod w = n" by simp
    then show ?thesis by (simp add: algebra_simps)
  qed
  then show ?thesis using b by (simp add: main_inicio_def main_fin_def)
qed

theorem politica_de_reparto_witness:
  "(0::int) < 7 \<and> (1::int) \<le> 3 \<and> (0::int) \<le> 2 \<and> (2::int) < 3
   \<and> subintervalos_por_proceso 7 3 = 2 \<and> main_inicio 7 3 2 = 4 \<and> main_fin 7 3 2 = 7
   \<and> main_fin 7 3 2 - main_inicio 7 3 2 = 3"
  using politica_de_reparto [of 7 3 2] by simp

text \<open>
  Claim C4, as amended.  With more processes than subintervals (\<open>w > n > 0\<close>) the base size
  is \<open>0\<close>: every rank except the last receives the empty range \<open>[0, 0)\<close>, and the last rank,
  \<open>w - 1\<close>, receives the whole range \<open>[0, n)\<close>.  It is the low ranks whose ranges are empty;
  the range of the highest rank never is.
\<close>

theorem rangos_vacios:
  assumes "0 < n" "n < w" "0 \<le> rank" "rank < w"
  shows "(rank < w - 1 \<longrightarrow> main_inicio n w rank = 0 \<and> main_fin n w rank = 0)
       \<and> (rank = w - 1 \<longrightarrow> main_inicio n w rank = 0 \<and> main_fin n w rank = n)"
proof -
  have "subintervalos_por_proceso n w = 0" using assms by (simp add: base_eq)
  then show ?thesis by (simp add: main_inicio_def main_fin_def)
qed

theorem rangos_vacios_witness:
  "(0::int) < 2 \<and> (2::int) < 4 \<and> main_inicio 2 4 2 = 0 \<and> main_fin 2 4 2 = 0
   \<and> main_inicio 2 4 3 = 0 \<and> main_fin 2 4 3 = 2"
  using rangos_vacios [of 2 4 2] rangos_vacios [of 2 4 3] by simp

text \<open>
  With one subinterval and two processes, the range of the highest rank, rank 1, is
  \<open>[0, 1)\<close>: it is not empty.
\<close>

theorem rangos_vacios_counterexample:
  "(0::int) < 1 \<and> (1::int) < 2 \<and> main_inicio 1 2 1 \<noteq> main_fin 1 2 1"
  by (simp add: main_inicio_def main_fin_def subintervalos_por_proceso_def c_div_def)

section \<open>The sum over a range\<close>

text \<open>
  Claim C5.  For every \<open>a\<close>, \<open>b\<close> and \<open>n > 0\<close>, \<open>calcular_suma_riemann\<close> on an empty
  range (\<open>inicio = fin = start\<close>, with \<open>0 \<le> start \<le> n\<close>) returns the literal \<open>0.0\<close>: the
  loop body never runs and the accumulator is returned as initialised.  The function is
  total, so it does not fail.  This holds for every arithmetic, whatever \<open>a\<close> and \<open>b\<close> are.
\<close>

theorem rango_vacio:
  assumes "0 < params_n params" "0 \<le> start" "start \<le> params_n params"
  shows "calcular_suma_riemann ops params start start = fzero ops"
  unfolding calcular_suma_riemann_def Let_def by (subst bucle_mpi.simps) simp

theorem rango_vacio_witness:
  "(0::int) < 3 \<and> (0::int) \<le> 2 \<and> (2::int) \<le> 3
   \<and> calcular_suma_riemann ieee_arith \<lparr>params_a = PInf, params_b = NaN, params_n = 3\<rparr> 2 2
       = Finite 0"
  using rango_vacio [of "\<lparr>params_a = PInf, params_b = NaN, params_n = 3\<rparr>" 2 ieee_arith]
  by (simp add: ieee_arith_def)

text \<open>
  Claim C6.  For every \<open>a\<close>, \<open>b\<close>, \<open>n > 0\<close> and \<open>0 \<le> start \<le> stop \<le> n\<close>,
  \<open>calcular_suma_riemann\<close> returns what the specification's \<open>RangeSum\<close> describes:
  \<open>delta_x = (b - a) / n\<close> computed once, and one accumulator that starts at \<open>0.0\<close> and
  receives the terms \<open>f(a + (i + 0.5) * delta_x) * delta_x\<close> for
  \<open>i = start, ..., stop - 1\<close> in ascending order, with no compensation.  The sequential
  program's function is the same accumulation over \<open>[0, n)\<close>.  Both are functions of their
  arguments only.
\<close>

theorem suma_es_acumulacion_ascendente:
  assumes "0 < n" "0 \<le> start" "start \<le> stop" "stop \<le> n"
  shows "calcular_suma_riemann ops \<lparr>params_a = a, params_b = b, params_n = n\<rparr> start stop
           = RangeSum ops a b n start stop
       \<and> calcular_suma_riemann_sec ops a b n = RangeSum ops a b n 0 n"
  by (simp add: sec_eq_mpi calcular_suma_riemann_foldl)

theorem suma_es_acumulacion_ascendente_witness:
  "(0::int) < 4 \<and> (0::int) \<le> 1 \<and> (1::int) \<le> 3 \<and> (3::int) \<le> 4
   \<and> calcular_suma_riemann (exact_arith (\<lambda>x. x)) \<lparr>params_a = 0, params_b = 4, params_n = 4\<rparr> 1 3
        = RangeSum (exact_arith (\<lambda>x. x)) 0 4 4 1 3
   \<and> RangeSum (exact_arith (\<lambda>x. x)) 0 4 4 1 3 = 4
   \<and> calcular_suma_riemann_sec (exact_arith (\<lambda>x. x)) 0 4 4 = RangeSum (exact_arith (\<lambda>x. x)) 0 4 4 0 4"
proof -
  have "[1..2] = [1, 2::int]" by (simp add: upto.simps)
  then have "RangeSum (exact_arith (\<lambda>x. x)) 0 4 4 1 3 = 4"
    by (simp add: RangeSum_def exact_arith_def termino_def funcion_def)
  then show ?thesis
    using suma_es_acumulacion_ascendente [of 4 1 3 "exact_arith (\<lambda>x. x)" 0 4] by simp
qed

text \<open>
  Claim C10.  For every \<open>a\<close>, \<open>b\<close> and \<open>n > 0\<close>, \<open>calcular_suma_riemann(a, b, n)\<close> of
  the sequential program and \<open>calcular_suma_riemann({a, b, n}, 0, n)\<close> of the MPI program
  return the same value, for every arithmetic: the two loops apply the same operations to
  the same operands in the same order.
\<close>

theorem secuencial_igual_a_rango_completo:
  assumes "0 < n"
  shows "calcular_suma_riemann_sec ops a b n =
           calcular_suma_riemann ops \<lparr>params_a = a, params_b = b, params_n = n\<rparr> 0 n"
  by (rule sec_eq_mpi)

theorem secuencial_igual_a_rango_completo_witness:
  "(0::int) < 2 \<and> calcular_suma_riemann_sec ieee_arith (Finite 0) (Finite 2) 2 =
     calcular_suma_riemann ieee_arith \<lparr>params_a = Finite 0, params_b = Finite 2, params_n = 2\<rparr> 0 2"
  using secuencial_igual_a_rango_completo [of 2 ieee_arith "Finite 0" "Finite 2"] by simp

text \<open>
  Claim C9.  Under exact arithmetic, for every integrand \<open>f\<close>, every \<open>a\<close>, \<open>b\<close>, \<open>n > 0\<close>
  and \<open>0 \<le> start \<le> mid \<le> stop \<le> n\<close>, the sum over \<open>[start, mid)\<close> plus the sum over
  \<open>[mid, stop)\<close> is the sum over \<open>[start, stop)\<close>.
\<close>

theorem rangos_adyacentes_suman:
  assumes "0 < n" "0 \<le> start" "start \<le> mid" "mid \<le> stop" "stop \<le> n"
  shows "calcular_suma_riemann (exact_arith f) \<lparr>params_a = a, params_b = b, params_n = n\<rparr> start mid
         + calcular_suma_riemann (exact_arith f) \<lparr>params_a = a, params_b = b, params_n = n\<rparr> mid stop
         = calcular_suma_riemann (exact_arith f) \<lparr>params_a = a, params_b = b, params_n = n\<rparr> start stop"
proof -
  let ?p = "\<lparr>params_a = a, params_b = b, params_n = n\<rparr>"
  have "terminos (exact_arith f) ?p start stop
          = terminos (exact_arith f) ?p start mid @ terminos (exact_arith f) ?p mid stop"
    using assms by (simp add: terminos_append)
  then show ?thesis by (simp add: calcular_exact)
qed

theorem rangos_adyacentes_suman_witness:
  "(0::int) < 4 \<and> (0::int) \<le> 0 \<and> (0::int) \<le> 1 \<and> (1::int) \<le> 3 \<and> (3::int) \<le> 4
   \<and> calcular_suma_riemann (exact_arith (\<lambda>x. x)) \<lparr>params_a = 0, params_b = 4, params_n = 4\<rparr> 0 1
     + calcular_suma_riemann (exact_arith (\<lambda>x. x)) \<lparr>params_a = 0, params_b = 4, params_n = 4\<rparr> 1 3
     = calcular_suma_riemann (exact_arith (\<lambda>x. x)) \<lparr>params_a = 0, params_b = 4, params_n = 4\<rparr> 0 3"
  using rangos_adyacentes_suman [of 4 0 1 3 "\<lambda>x. x" 0 4] by simp

text \<open>
  Claim C7, as amended.  For every \<open>n > 0\<close> and all finite \<open>a\<close>, \<open>b\<close> with \<open>a == b\<close>, the
  sequential sum, the sum over the full range \<open>[0, n)\<close> and the reduced total of any number
  \<open>w \<ge> 1\<close> of processes are \<open>0.0\<close>: \<open>delta_x\<close> is \<open>0\<close>, so is every term.  Finiteness is
  needed: \<open>a == b\<close> also holds for two equal infinities.
\<close>

theorem dominio_de_ancho_cero:
  assumes "0 < n" "es_finito a" "es_finito b" "deq a b"
  shows "calcular_suma_riemann_sec ieee_arith a b n = Finite 0
       \<and> calcular_suma_riemann ieee_arith \<lparr>params_a = a, params_b = b, params_n = n\<rparr> 0 n = Finite 0
       \<and> (1 \<le> w \<longrightarrow> suma_total ieee_arith \<lparr>params_a = a, params_b = b, params_n = n\<rparr> w = Finite 0)"
proof -
  from assms obtain x where ab: "a = Finite x" "b = Finite x"
    by (cases a; cases b) simp_all
  let ?p = "\<lparr>params_a = Finite x, params_b = Finite x, params_n = n\<rparr>"
  have r: "calcular_suma_riemann ieee_arith ?p s e = Finite 0" for s e
    using assms(1) by (rule rango_ancho_cero)
  have "suma_total ieee_arith ?p w = Finite 0"
    unfolding suma_total_def by (rule reduce_sum_ceros) (simp add: suma_local_def r)
  with r show ?thesis by (simp add: ab sec_eq_mpi)
qed

theorem dominio_de_ancho_cero_witness:
  "(0::int) < 3 \<and> es_finito (Finite 2) \<and> deq (Finite 2) (Finite 2)
   \<and> calcular_suma_riemann_sec ieee_arith (Finite 2) (Finite 2) 3 = Finite 0
   \<and> suma_total ieee_arith \<lparr>params_a = Finite 2, params_b = Finite 2, params_n = 3\<rparr> 2 = Finite 0"
  using dominio_de_ancho_cero [of 3 "Finite 2" "Finite 2" 2] by simp

text \<open>
  With \<open>a = b = +\<infinity>\<close> (what \<open>atof\<close> returns for the argument \<^verbatim>\<open>inf\<close>) and \<open>n = 1\<close>,
  \<open>a == b\<close> holds, \<open>b - a\<close> is NaN, and the sum is NaN, not \<open>0.0\<close>.
\<close>

theorem dominio_de_ancho_cero_counterexample:
  "(0::int) < 1 \<and> deq PInf PInf
   \<and> calcular_suma_riemann_sec ieee_arith PInf PInf 1 = NaN
   \<and> calcular_suma_riemann_sec ieee_arith PInf PInf 1 \<noteq> Finite 0"
proof -
  have "calcular_suma_riemann_sec ieee_arith PInf PInf 1 = NaN"
    unfolding calcular_suma_riemann_sec_def Let_def
    by (subst bucle_sec.simps, subst bucle_sec.simps)
       (simp add: ieee_arith_def dsub_def funcion_def)
  then show ?thesis by simp
qed

section \<open>Parallel and sequential execution\<close>

text \<open>
  Claim C1.  For every \<open>a\<close>, \<open>b\<close>, \<open>n > 0\<close> and \<open>w \<ge> 1\<close> processes, the total that the
  rank-order reduction of the \<open>w\<close> local sums gives is equivalent to the sequential sum
  over \<open>[0, n)\<close>:
  \<^item> with \<open>w = 1\<close> the two are the same value, for every arithmetic;
  \<^item> under exact arithmetic they are the same value for every \<open>w\<close>;
  \<^item> for every arithmetic the total is the local sum of rank 0 to which the local sums of
    the ranks \<open>1, ..., w - 1\<close> are added one by one, in rank order;
  \<^item> for every arithmetic whose addition is associative and has \<open>0.0\<close> as neutral element,
    the total and the sequential sum are the same value for every \<open>w\<close>;
  \<^item> for every arithmetic they differ by the order of summation only: each local sum is
    the left-to-right sum, from \<open>0.0\<close>, of the terms of its range, the sequential sum is
    the left-to-right sum, from \<open>0.0\<close>, of the terms of \<open>[0, n)\<close>, and the term lists of the
    ranks \<open>0, ..., w - 1\<close>, one after the other, are the term list of \<open>[0, n)\<close>.
\<close>

theorem paralelo_equivale_a_secuencial:
  assumes "0 < n" "1 \<le> w"
  shows "(w = 1 \<longrightarrow>
            suma_total ops \<lparr>params_a = a, params_b = b, params_n = n\<rparr> w
              = calcular_suma_riemann ops \<lparr>params_a = a, params_b = b, params_n = n\<rparr> 0 n)
       \<and> suma_total (exact_arith f) \<lparr>params_a = x, params_b = y, params_n = n\<rparr> w
              = calcular_suma_riemann (exact_arith f) \<lparr>params_a = x, params_b = y, params_n = n\<rparr> 0 n
       \<and> suma_total ops \<lparr>params_a = a, params_b = b, params_n = n\<rparr> w
              = foldl (fadd ops) (suma_local ops \<lparr>params_a = a, params_b = b, params_n = n\<rparr> w 0)
                  (map (suma_local ops \<lparr>params_a = a, params_b = b, params_n = n\<rparr> w) [1..w - 1])
       \<and> ((\<forall>u v t. fadd ops (fadd ops u v) t = fadd ops u (fadd ops v t))
            \<and> (\<forall>u. fadd ops (fzero ops) u = u) \<and> (\<forall>u. fadd ops u (fzero ops) = u) \<longrightarrow>
            suma_total ops \<lparr>params_a = a, params_b = b, params_n = n\<rparr> w
              = calcular_suma_riemann ops \<lparr>params_a = a, params_b = b, params_n = n\<rparr> 0 n)
       \<and> (\<forall>rank. suma_local ops \<lparr>params_a = a, params_b = b, params_n = n\<rparr> w rank
              = foldl (fadd ops) (fzero ops)
                  (terminos ops \<lparr>params_a = a, params_b = b, params_n = n\<rparr>
                     (main_inicio n w rank) (main_fin n w rank)))
       \<and> calcular_suma_riemann ops \<lparr>params_a = a, params_b = b, params_n = n\<rparr> 0 n
              = foldl (fadd ops) (fzero ops)
                  (terminos ops \<lparr>params_a = a, params_b = b, params_n = n\<rparr> 0 n)
       \<and> concat (map (\<lambda>rank. terminos ops \<lparr>params_a = a, params_b = b, params_n = n\<rparr>
                                  (main_inicio n w rank) (main_fin n w rank)) [0..w - 1])
              = terminos ops \<lparr>params_a = a, params_b = b, params_n = n\<rparr> 0 n"
proof (intro conjI impI allI)
  let ?p = "\<lparr>params_a = a, params_b = b, params_n = n\<rparr>"
  assume "w = 1"
  then show "suma_total ops ?p w = calcular_suma_riemann ops ?p 0 n"
    using assms suma_total_uno [of ?p ops] by simp
next
  show "suma_total (exact_arith f) \<lparr>params_a = x, params_b = y, params_n = n\<rparr> w
          = calcular_suma_riemann (exact_arith f) \<lparr>params_a = x, params_b = y, params_n = n\<rparr> 0 n"
    using assms suma_total_exact [of "\<lparr>params_a = x, params_b = y, params_n = n\<rparr>" w f] by simp
next
  show "suma_total ops \<lparr>params_a = a, params_b = b, params_n = n\<rparr> w
          = foldl (fadd ops) (suma_local ops \<lparr>params_a = a, params_b = b, params_n = n\<rparr> w 0)
              (map (suma_local ops \<lparr>params_a = a, params_b = b, params_n = n\<rparr> w) [1..w - 1])"
    using assms(2) by (rule suma_total_foldl)
next
  let ?p = "\<lparr>params_a = a, params_b = b, params_n = n\<rparr>"
  assume h: "(\<forall>u v t. fadd ops (fadd ops u v) t = fadd ops u (fadd ops v t))
            \<and> (\<forall>u. fadd ops (fzero ops) u = u) \<and> (\<forall>u. fadd ops u (fzero ops) = u)"
  have "suma_total ops ?p w = calcular_suma_riemann ops ?p 0 (params_n ?p)"
    using assms h by (intro suma_total_asociativa) simp_all
  then show "suma_total ops ?p w = calcular_suma_riemann ops ?p 0 n" by simp
next
  fix rank
  show "suma_local ops \<lparr>params_a = a, params_b = b, params_n = n\<rparr> w rank
          = foldl (fadd ops) (fzero ops)
              (terminos ops \<lparr>params_a = a, params_b = b, params_n = n\<rparr>
                 (main_inicio n w rank) (main_fin n w rank))"
    by (simp add: suma_local_def calcular_suma_riemann_terminos)
next
  show "calcular_suma_riemann ops \<lparr>params_a = a, params_b = b, params_n = n\<rparr> 0 n
          = foldl (fadd ops) (fzero ops)
              (terminos ops \<lparr>params_a = a, params_b = b, params_n = n\<rparr> 0 n)"
    by (rule calcular_suma_riemann_terminos)
next
  show "concat (map (\<lambda>rank. terminos ops \<lparr>params_a = a, params_b = b, params_n = n\<rparr>
                               (main_inicio n w rank) (main_fin n w rank)) [0..w - 1])
          = terminos ops \<lparr>params_a = a, params_b = b, params_n = n\<rparr> 0 n"
    using assms terminos_concat [of "\<lparr>params_a = a, params_b = b, params_n = n\<rparr>" w ops] by simp
qed

theorem paralelo_equivale_a_secuencial_witness:
  "(0::int) < 7 \<and> (1::int) \<le> 3
   \<and> (\<forall>u v t. fadd (exact_arith (\<lambda>x. x)) (fadd (exact_arith (\<lambda>x. x)) u v) t
                 = fadd (exact_arith (\<lambda>x. x)) u (fadd (exact_arith (\<lambda>x. x)) v t))
   \<and> (\<forall>u. fadd (exact_arith (\<lambda>x. x)) (fzero (exact_arith (\<lambda>x. x))) u = u)
   \<and> (\<forall>u. fadd (exact_arith (\<lambda>x. x)) u (fzero (exact_arith (\<lambda>x. x))) = u)
   \<and> suma_total (exact_arith (\<lambda>x. x)) \<lparr>params_a = 0, params_b = 7, params_n = 7\<rparr> 3
       = calcular_suma_riemann (exact_arith (\<lambda>x. x)) \<lparr>params_a = 0, params_b = 7, params_n = 7\<rparr> 0 7
   \<and> suma_total ieee_arith \<lparr>params_a = Finite 0, params_b = PInf, params_n = 7\<rparr> 3
       = foldl (fadd ieee_arith)
           (suma_local ieee_arith \<lparr>params_a = Finite 0, params_b = PInf, params_n = 7\<rparr> 3 0)
           (map (suma_local ieee_arith \<lparr>params_a = Finite 0, params_b = PInf, params_n = 7\<rparr> 3)
              [1..3 - 1])
   \<and> concat (map (\<lambda>rank. terminos ieee_arith \<lparr>params_a = Finite 0, params_b = PInf, params_n = 7\<rparr>
                              (main_inicio 7 3 rank) (main_fin 7 3 rank)) [0..3 - 1])
       = terminos ieee_arith \<lparr>params_a = Finite 0, params_b = PInf, params_n = 7\<rparr> 0 7
   \<and> suma_total ieee_arith \<lparr>params_a = Finite 0, params_b = PInf, params_n = 7\<rparr> 1
       = calcular_suma_riemann ieee_arith \<lparr>params_a = Finite 0, params_b = PInf, params_n = 7\<rparr> 0 7"
proof -
  have h: "(0::int) < 7" "(1::int) \<le> 3" "(1::int) \<le> 1" by simp_all
  have mon: "(\<forall>u v t. fadd (exact_arith (\<lambda>x. x)) (fadd (exact_arith (\<lambda>x. x)) u v) t
                 = fadd (exact_arith (\<lambda>x. x)) u (fadd (exact_arith (\<lambda>x. x)) v t))
     \<and> (\<forall>u. fadd (exact_arith (\<lambda>x. x)) (fzero (exact_arith (\<lambda>x. x))) u = u)
     \<and> (\<forall>u. fadd (exact_arith (\<lambda>x. x)) u (fzero (exact_arith (\<lambda>x. x))) = u)"
    by (simp add: exact_arith_def)
  have e: "suma_total (exact_arith (\<lambda>x. x)) \<lparr>params_a = 0, params_b = 7, params_n = 7\<rparr> 3
       = calcular_suma_riemann (exact_arith (\<lambda>x. x)) \<lparr>params_a = 0, params_b = 7, params_n = 7\<rparr> 0 7"
    using paralelo_equivale_a_secuencial
            [OF h(1) h(2), where ops = "exact_arith (\<lambda>x. x)" and a = 0 and b = 7] mon
    by blast
  have i3: "suma_total ieee_arith \<lparr>params_a = Finite 0, params_b = PInf, params_n = 7\<rparr> 3
       = foldl (fadd ieee_arith)
           (suma_local ieee_arith \<lparr>params_a = Finite 0, params_b = PInf, params_n = 7\<rparr> 3 0)
           (map (suma_local ieee_arith \<lparr>params_a = Finite 0, params_b = PInf, params_n = 7\<rparr> 3)
              [1..3 - 1])"
    and c3: "concat (map (\<lambda>rank. terminos ieee_arith \<lparr>params_a = Finite 0, params_b = PInf, params_n = 7\<rparr>
                              (main_inicio 7 3 rank) (main_fin 7 3 rank)) [0..3 - 1])
       = terminos ieee_arith \<lparr>params_a = Finite 0, params_b = PInf, params_n = 7\<rparr> 0 7"
    using paralelo_equivale_a_secuencial
            [OF h(1) h(2), where ops = ieee_arith and a = "Finite 0" and b = PInf]
    by blast+
  have i1: "suma_total ieee_arith \<lparr>params_a = Finite 0, params_b = PInf, params_n = 7\<rparr> 1
       = calcular_suma_riemann ieee_arith \<lparr>params_a = Finite 0, params_b = PInf, params_n = 7\<rparr> 0 7"
    using paralelo_equivale_a_secuencial
            [OF h(1) h(3), where ops = ieee_arith and a = "Finite 0" and b = PInf]
    by blast
  show ?thesis
    using h(1) h(2) mon e i3 c3 i1 by (intro conjI) blast+
qed

section \<open>Rejected input\<close>

lemma main_secuencial_acepta:
  assumes "length args = 3" "0 < atol env (args ! 2)"
  shows "main_secuencial ops env argv0 args =
           \<lparr>eventos = [Stdout (Aproximando (atof env (args ! 0)) (atof env (args ! 1))
                                   (atol env (args ! 2))),
                        Calculo (atof env (args ! 0)) (atof env (args ! 1)) (atol env (args ! 2)),
                        Stdout (Resultado (calcular_suma_riemann_sec ops (atof env (args ! 0))
                                  (atof env (args ! 1)) (atol env (args ! 2)))),
                        Stdout (Tiempo (tiempo env))],
            estado = 0\<rparr>"
  using assms by (simp add: main_secuencial_def Let_def EXIT_SUCCESS_def)

text \<open>
  Claim C8.  The sequential program, run with a number of arguments other than three or
  with \<open>n \<le> 0\<close>, and the OpenMP program, run with a number of arguments other than four
  or with \<open>n \<le> 0\<close> or a number of threads \<open>\<le> 0\<close>, exit with a nonzero status; they write
  at least one line, and every event of the run is a line on standard error: nothing is
  written to standard output (so no result line), and the integration function is never
  called.
\<close>

theorem entrada_rechazada:
  "(length args \<noteq> 3 \<or> atol env (args ! 2) \<le> 0 \<longrightarrow>
      (let e = main_secuencial ops env argv0 args
       in estado e \<noteq> 0 \<and> eventos e \<noteq> [] \<and> list_all es_stderr (eventos e)
          \<and> \<not> list_ex es_calculo (eventos e) \<and> \<not> list_ex es_resultado (eventos e)
          \<and> \<not> list_ex es_stdout (eventos e)))
 \<and> (length args' \<noteq> 4 \<or> atol env (args' ! 2) \<le> 0 \<or> atoi env (args' ! 3) \<le> 0 \<longrightarrow>
      (let e = main_openmp env argv0 args'
       in estado e \<noteq> 0 \<and> eventos e \<noteq> [] \<and> list_all es_stderr (eventos e)
          \<and> \<not> list_ex es_calculo (eventos e) \<and> \<not> list_ex es_resultado (eventos e)
          \<and> \<not> list_ex es_stdout (eventos e)))"
  by (auto simp: main_secuencial_def main_openmp_def Let_def EXIT_FAILURE_def)

theorem entrada_rechazada_witness:
  "atol \<lparr>atof = (\<lambda>s. 0::real), atol = (\<lambda>s. if s = ''0'' then 0 else 5), atoi = (\<lambda>s. 4),
         tiempo = 0, suma_openmp = (\<lambda>a b n h. 0)\<rparr> ([''0'', ''1'', ''0''] ! 2) \<le> 0
   \<and> (let e = main_secuencial (exact_arith sin)
                \<lparr>atof = (\<lambda>s. 0::real), atol = (\<lambda>s. if s = ''0'' then 0 else 5), atoi = (\<lambda>s. 4),
                 tiempo = 0, suma_openmp = (\<lambda>a b n h. 0)\<rparr> ''riemann'' [''0'', ''1'', ''0'']
      in estado e \<noteq> 0 \<and> eventos e \<noteq> [] \<and> list_all es_stderr (eventos e)
         \<and> \<not> list_ex es_calculo (eventos e) \<and> \<not> list_ex es_resultado (eventos e)
         \<and> \<not> list_ex es_stdout (eventos e))
   \<and> length [''0'', ''1'', ''9''] \<noteq> 4
   \<and> (let e = main_openmp
                \<lparr>atof = (\<lambda>s. 0::real), atol = (\<lambda>s. if s = ''0'' then 0 else 5), atoi = (\<lambda>s. 4),
                 tiempo = 0, suma_openmp = (\<lambda>a b n h. 0)\<rparr> ''riemann'' [''0'', ''1'', ''9'']
      in estado e \<noteq> 0 \<and> eventos e \<noteq> [] \<and> list_all es_stderr (eventos e)
         \<and> \<not> list_ex es_calculo (eventos e) \<and> \<not> list_ex es_resultado (eventos e)
         \<and> \<not> list_ex es_stdout (eventos e))"
  using entrada_rechazada
    [of "[''0'', ''1'', ''0'']"
        "\<lparr>atof = (\<lambda>s. 0::real), atol = (\<lambda>s. if s = ''0'' then 0 else 5), atoi = (\<lambda>s. 4),
          tiempo = 0, suma_openmp = (\<lambda>a b n h. 0)\<rparr>"
        "exact_arith sin" "''riemann''" "[''0'', ''1'', ''9'']"]
  by simp

end
